theory Spec2Isabelle
  imports Main "HOL-Library.AList" "HOL-Library.Sublist"
begin

unbundle bit_operations_syntax

section \<open>Data model\<close>

text \<open>
  The program is \<^verbatim>\<open>src/util/keyboard.py\<close> (classifier, scanner, monitoring thread) and
  its two callers \<^verbatim>\<open>src/main.py\<close> and \<^verbatim>\<open>src/tt.py\<close>. The operating system and the
  \<^verbatim>\<open>evdev\<close> library are not part of the repository: what they answer is a parameter of
  the model, and what the program does to them is recorded in a trace.

  Python exceptions. The \<^verbatim>\<open>except\<close> clauses of the source distinguish
  \<^verbatim>\<open>BlockingIOError\<close> (a subclass of \<^verbatim>\<open>OSError\<close>), \<^verbatim>\<open>OSError\<close>, \<^verbatim>\<open>ValueError\<close> and
  the catch-all \<^verbatim>\<open>Exception\<close>; \<^verbatim>\<open>KeyError\<close> is what a dictionary subscript raises.
  The string is the exception's text.
\<close>

datatype exn =
    BlockingIOError string
  | OSError string
  | ValueError string
  | KeyError nat
  | OtherException string

text \<open>
  An \<^verbatim>\<open>evdev.InputDevice\<close> object. \<open>handle\<close> is the identity of the object (one per
  successful constructor call); \<open>path\<close>, \<open>fd\<close> and \<open>name\<close> are the attributes the source
  reads; \<open>capabilities\<close> is what the method \<^verbatim>\<open>device.capabilities()\<close> answers: a
  dictionary from event type to the list of supported codes, or an exception (the device
  vanished after it was opened).
\<close>

record InputDevice =
  handle :: nat
  path :: string
  fd :: nat
  name :: string
  capabilities :: "exn + (nat \<rightharpoonup> nat list)"

text \<open>An input event as \<^verbatim>\<open>dev.read()\<close> yields it: type tag, code and value.\<close>

record InputEvent =
  ev_type :: nat
  ev_code :: nat
  ev_value :: int

text \<open>The constants of \<^verbatim>\<open>evdev.ecodes\<close> and \<^verbatim>\<open>os\<close> that the source names (Linux values).\<close>

definition EV_KEY :: nat where "EV_KEY = 1"
definition KEY_1 :: nat where "KEY_1 = 2"
definition KEY_ENTER :: nat where "KEY_ENTER = 28"
definition KEY_A :: nat where "KEY_A = 30"
definition KEY_Z :: nat where "KEY_Z = 44"
definition KEY_SPACE :: nat where "KEY_SPACE = 57"

definition O_NONBLOCK :: int where "O_NONBLOCK = 2048"

text \<open>
  \<^verbatim>\<open>KeyEvent.key_down\<close> of evdev; \<^verbatim>\<open>categorize(event).keystate\<close> is the event's value
  (0 released, 1 pressed, 2 repeated: the values the kernel sends for a key event).
\<close>

definition key_down :: int where "key_down = 1"

text \<open>The lines the source prints, one constructor per \<^verbatim>\<open>print\<close> statement, with the
  values its f-string interpolates.\<close>

datatype message =
    Starting_thread
  | Error_closing_old_device nat exn
  | Select_error_ValueError exn
  | Select_unexpected_error exn
  | Key_press_detected string string
  | Assigned_player int string string
  | Both_players_registered
  | OSError_reading string string exn
  | Error_processing_event string string exn
  | Thread_finished

text \<open>
  What the program does to its environment, in the order it does it: a call of the
  scanner, a successful \<^verbatim>\<open>InputDevice(path)\<close>, a call of \<^verbatim>\<open>dev.close()\<close>, a
  successful \<^verbatim>\<open>fcntl(fd, F_SETFL, flags)\<close>, a call of \<^verbatim>\<open>select.select\<close> on a list of
  descriptors, a \<^verbatim>\<open>print\<close>, a \<^verbatim>\<open>root.after(0, update_ui, n)\<close> and a \<^verbatim>\<open>time.sleep\<close>
  (in milliseconds).
\<close>

datatype effect =
    Scan
  | Opened nat
  | Closed nat
  | SetFl nat int
  | Select "nat list"
  | Print message
  | After int
  | Sleep nat

text \<open>
  The environment's state: the trace, the file status flags of every handle, and the
  number of handles opened so far (the next object identity).
\<close>

record world =
  trace :: "effect list"
  fl :: "nat \<Rightarrow> int"
  next_handle :: nat

text \<open>
  Which library calls fail, by handle: \<^verbatim>\<open>dev.close()\<close>, \<^verbatim>\<open>fcntl(fd, F_GETFL)\<close> and
  \<^verbatim>\<open>fcntl(fd, F_SETFL, _)\<close>.
\<close>

record faults =
  close_raises :: "nat \<Rightarrow> exn option"
  getfl_raises :: "nat \<Rightarrow> exn option"
  setfl_raises :: "nat \<Rightarrow> exn option"

text \<open>
  What one pass of the monitoring loop finds in its environment: whether
  \<^verbatim>\<open>/dev/input/by-id\<close> exists; for each of its entries the resolved path and what
  \<^verbatim>\<open>InputDevice\<close> answers for it; the same for \<^verbatim>\<open>evdev.list_devices()\<close>; and what
  \<^verbatim>\<open>select.select\<close> answers: an exception, or the ready descriptors, each with what
  \<^verbatim>\<open>dev.read()\<close> yields for it.
\<close>

type_synonym open_result = "exn + InputDevice"

record cycle =
  by_id_exists :: bool
  by_id_entries :: "(string \<times> open_result) list"
  list_devices :: "(string \<times> open_result) list"
  select_result :: "exn + (nat \<times> (exn + InputEvent list)) list"

definition log :: "effect \<Rightarrow> world \<Rightarrow> world" where
  "log e w = w\<lparr>trace := trace w @ [e]\<rparr>"

section \<open>Library calls\<close>

text \<open>\<^verbatim>\<open>InputDevice(p)\<close>: raises, or answers a new object whose \<open>path\<close> is \<open>p\<close>.\<close>

definition open_device :: "string \<Rightarrow> open_result \<Rightarrow> world \<Rightarrow> (exn + InputDevice) \<times> world" where
  "open_device p r w =
     (case r of
        Inl e \<Rightarrow> (Inl e, w)
      | Inr d \<Rightarrow>
          (Inr (d\<lparr>handle := next_handle w, path := p\<rparr>),
           log (Opened (next_handle w)) (w\<lparr>next_handle := Suc (next_handle w)\<rparr>)))"

text \<open>\<^verbatim>\<open>dev.close()\<close>: the call is recorded, and it may raise.\<close>

definition close :: "faults \<Rightarrow> InputDevice \<Rightarrow> world \<Rightarrow> exn option \<times> world" where
  "close os dev w = (close_raises os (handle dev), log (Closed (handle dev)) w)"

definition fcntl_getfl :: "faults \<Rightarrow> InputDevice \<Rightarrow> world \<Rightarrow> (exn + int) \<times> world" where
  "fcntl_getfl os dev w =
     (case getfl_raises os (handle dev) of
        Some e \<Rightarrow> (Inl e, w)
      | None \<Rightarrow> (Inr (fl w (handle dev)), w))"

definition fcntl_setfl :: "faults \<Rightarrow> InputDevice \<Rightarrow> int \<Rightarrow> world \<Rightarrow> exn option \<times> world" where
  "fcntl_setfl os dev flags w =
     (case setfl_raises os (handle dev) of
        Some e \<Rightarrow> (Some e, w)
      | None \<Rightarrow> (None, log (SetFl (handle dev) flags) (w\<lparr>fl := (fl w)(handle dev := flags)\<rparr>)))"

section \<open>The classifier\<close>

text \<open>
  \<^verbatim>\<open>is_keyboard(device)\<close>, lines 8-22. The body only queries the device
  (\<^verbatim>\<open>device.capabilities()\<close>) and writes nothing, so the model is a function of the device
  alone; an exception of the query propagates. The source repeats the query within one
  call; the model takes all of them to give the same answer.
\<close>

definition is_keyboard :: "InputDevice \<Rightarrow> exn + bool" where
  "is_keyboard device =
     (case capabilities device of
        Inl e \<Rightarrow> Inl e
      | Inr caps \<Rightarrow>
          (case caps EV_KEY of
             None \<Rightarrow> Inr False
           | Some codes \<Rightarrow>
               if list_ex (\<lambda>k. k \<in> set codes) [KEY_A, KEY_Z, KEY_SPACE, KEY_ENTER, KEY_1]
               then Inr True
               else Inr False))"

section \<open>The scanner\<close>

text \<open>
  The body of the two \<^verbatim>\<open>try\<close> blocks (lines 45-53 and 59-66, the same statements):
  open the device, classify it, store a keyboard in \<^verbatim>\<open>by_id_devices\<close> under its path and
  close anything else; \<^verbatim>\<open>except Exception: pass\<close> ends the block at the first exception
  of any of these calls.
\<close>

definition probe ::
  "faults \<Rightarrow> string \<Rightarrow> open_result \<Rightarrow> (string \<times> InputDevice) list \<Rightarrow> world
     \<Rightarrow> (string \<times> InputDevice) list \<times> world" where
  "probe os p r by_id_devices w =
     (case open_device p r w of
        (Inl e, w1) \<Rightarrow> (by_id_devices, w1)
      | (Inr dev, w1) \<Rightarrow>
          (case is_keyboard dev of
             Inl e \<Rightarrow> (by_id_devices, w1)
           | Inr True \<Rightarrow> (AList.update (path dev) dev by_id_devices, w1)
           | Inr False \<Rightarrow> (by_id_devices, snd (close os dev w1))))"

text \<open>The loop over \<^verbatim>\<open>os.listdir(by_id_path)\<close>, lines 41-53.\<close>

fun scan_by_id ::
  "faults \<Rightarrow> (string \<times> open_result) list \<Rightarrow> (string \<times> InputDevice) list \<Rightarrow> world
     \<Rightarrow> (string \<times> InputDevice) list \<times> world" where
  "scan_by_id os [] by_id_devices w = (by_id_devices, w)"
| "scan_by_id os ((event_path, r) # entries) by_id_devices w =
     (if prefix ''/dev/input/event'' event_path
      then (case probe os event_path r by_id_devices w of
              (by_id_devices', w') \<Rightarrow> scan_by_id os entries by_id_devices' w')
      else scan_by_id os entries by_id_devices w)"

text \<open>The fallback loop over \<^verbatim>\<open>evdev.list_devices()\<close>, lines 57-66.\<close>

fun scan_event_nodes ::
  "faults \<Rightarrow> (string \<times> open_result) list \<Rightarrow> (string \<times> InputDevice) list \<Rightarrow> world
     \<Rightarrow> (string \<times> InputDevice) list \<times> world" where
  "scan_event_nodes os [] by_id_devices w = (by_id_devices, w)"
| "scan_event_nodes os ((p, r) # entries) by_id_devices w =
     (if map_of by_id_devices p = None
      then (case probe os p r by_id_devices w of
              (by_id_devices', w') \<Rightarrow> scan_event_nodes os entries by_id_devices' w')
      else scan_event_nodes os entries by_id_devices w)"

text \<open>
  The loop over \<^verbatim>\<open>by_id_devices.items()\<close>, lines 72-84. None of its calls is inside a
  \<^verbatim>\<open>try\<close>: an exception of \<^verbatim>\<open>fcntl\<close> or of \<^verbatim>\<open>dev.close()\<close> leaves the function.
\<close>

fun configure ::
  "faults \<Rightarrow> string list \<Rightarrow> (string \<times> InputDevice) list \<Rightarrow> (nat \<times> InputDevice) list \<Rightarrow> world
     \<Rightarrow> (exn + (nat \<times> InputDevice) list) \<times> world" where
  "configure os assigned_paths [] available_devices w = (Inr available_devices, w)"
| "configure os assigned_paths ((p, dev) # items) available_devices w =
     (if p \<notin> set assigned_paths
      then (case fcntl_getfl os dev w of
              (Inl e, w1) \<Rightarrow> (Inl e, w1)
            | (Inr flag, w1) \<Rightarrow>
                (case fcntl_setfl os dev (flag OR O_NONBLOCK) w1 of
                   (Some e, w2) \<Rightarrow> (Inl e, w2)
                 | (None, w2) \<Rightarrow>
                     configure os assigned_paths items
                       (AList.update (fd dev) dev available_devices) w2))
      else (case close os dev w of
              (Some e, w1) \<Rightarrow> (Inl e, w1)
            | (None, w1) \<Rightarrow> configure os assigned_paths items available_devices w1))"

text \<open>
  The dictionary \<^verbatim>\<open>by_id_devices\<close> as it is after the two scanning loops (line 67),
  with the environment then.
\<close>

definition by_id_devices ::
  "faults \<Rightarrow> cycle \<Rightarrow> world \<Rightarrow> (string \<times> InputDevice) list \<times> world" where
  "by_id_devices os cyc w =
     (case (if by_id_exists cyc then scan_by_id os (by_id_entries cyc) [] w else ([], w)) of
        (by_id1, w1) \<Rightarrow> scan_event_nodes os (list_devices cyc) by_id1 w1)"

text \<open>\<^verbatim>\<open>discover_available_keyboards(player_keyboards)\<close>, lines 25-86.\<close>

definition discover_available_keyboards ::
  "faults \<Rightarrow> cycle \<Rightarrow> (int \<times> InputDevice) list \<Rightarrow> world
     \<Rightarrow> (exn + (nat \<times> InputDevice) list) \<times> world" where
  "discover_available_keyboards os cyc player_keyboards w =
     (case by_id_devices os cyc (log Scan w) of
        (by_id2, w2) \<Rightarrow>
          (let assigned_paths = map (\<lambda>(slot, dev). path dev) player_keyboards
           in configure os assigned_paths by_id2 [] w2))"

section \<open>The monitoring thread\<close>

text \<open>
  The variables of \<^verbatim>\<open>monitor_keyboards_thread\<close>: its parameters
  \<^verbatim>\<open>current_player_registering\<close>, \<^verbatim>\<open>player_keyboards\<close> and \<^verbatim>\<open>is_running\<close>, its local
  dictionary \<^verbatim>\<open>open_devices\<close>, and the environment. Dictionaries are association lists in
  insertion order, as Python iterates them. The parameters \<^verbatim>\<open>root\<close> and \<^verbatim>\<open>update_ui\<close>
  appear as the effect \<open>After\<close>; \<^verbatim>\<open>ui_update_lock\<close> guards blocks that the model runs
  as one step.
\<close>

record monitor =
  current_player_registering :: int
  player_keyboards :: "(int \<times> InputDevice) list"
  is_running :: bool
  open_devices :: "(nat \<times> InputDevice) list"
  env :: world

definition say :: "effect \<Rightarrow> monitor \<Rightarrow> monitor" where
  "say e st = st\<lparr>env := log e (env st)\<rparr>"

text \<open>
  \<^verbatim>\<open>try: dev.close() except Exception: pass\<close> and the loop of it over a list of devices
  (lines 142-146, 206-210 and 211-215). The result says whether an exception leaves the
  statement.
\<close>

definition try_close :: "faults \<Rightarrow> InputDevice \<Rightarrow> world \<Rightarrow> exn option \<times> world" where
  "try_close os dev w =
     (case close os dev w of
        (Some e, w1) \<Rightarrow> (None, w1)
      | (None, w1) \<Rightarrow> (None, w1))"

fun close_each :: "faults \<Rightarrow> InputDevice list \<Rightarrow> world \<Rightarrow> exn option \<times> world" where
  "close_each os [] w = (None, w)"
| "close_each os (dev # devs) w =
     (case try_close os dev w of
        (Some e, w1) \<Rightarrow> (Some e, w1)
      | (None, w1) \<Rightarrow> close_each os devs w1)"

text \<open>
  Lines 112-118: for each descriptor of \<^verbatim>\<open>fds_to_close\<close>, close the device and delete
  the entry; an exception of either (the deletion is skipped then) is printed.
\<close>

fun close_old :: "faults \<Rightarrow> nat list \<Rightarrow> monitor \<Rightarrow> monitor" where
  "close_old os [] st = st"
| "close_old os (fd' # fds_to_close) st =
     close_old os fds_to_close
       (case map_of (open_devices st) fd' of
          None \<Rightarrow> say (Print (Error_closing_old_device fd' (KeyError fd'))) st
        | Some dev \<Rightarrow>
            (case close os dev (env st) of
               (Some e, w1) \<Rightarrow> say (Print (Error_closing_old_device fd' e)) (st\<lparr>env := w1\<rparr>)
             | (None, w1) \<Rightarrow>
                 st\<lparr>open_devices := AList.delete fd' (open_devices st), env := w1\<rparr>))"

text \<open>Lines 121-123: a new descriptor is added, a known one keeps its old device.\<close>

fun add_new ::
  "(nat \<times> InputDevice) list \<Rightarrow> (nat \<times> InputDevice) list \<Rightarrow> (nat \<times> InputDevice) list" where
  "add_new [] open_devs = open_devs"
| "add_new ((fd', dev) # items) open_devs =
     add_new items
       (if map_of open_devs fd' = None then AList.update fd' dev open_devs else open_devs)"

text \<open>
  Lines 167-181, what a key press on \<open>dev\<close> does. The second component says whether the
  \<^verbatim>\<open>break\<close> of line 181 was executed.
\<close>

definition key_pressed :: "InputDevice \<Rightarrow> monitor \<Rightarrow> monitor \<times> bool" where
  "key_pressed dev st =
     (let st1 = say (Print (Key_press_detected (name dev) (path dev))) st in
      if current_player_registering st1 \<le> 2 \<and>
         path dev \<notin> set (map (\<lambda>(slot, d). path d) (player_keyboards st1))
      then
        (let st2 = st1\<lparr>player_keyboards :=
                     AList.update (current_player_registering st1) dev (player_keyboards st1)\<rparr>;
             st3 = say (Print (Assigned_player (current_player_registering st2)
                                 (name dev) (path dev))) st2;
             st4 = st3\<lparr>current_player_registering := current_player_registering st3 + 1\<rparr>;
             st5 = say (After (current_player_registering st4)) st4
         in if current_player_registering st5 > 2
            then (say (Print Both_players_registered) st5\<lparr>is_running := False\<rparr>, True)
            else (st5, False))
      else (st1, False))"

text \<open>The loop over the events of one device, lines 163-181.\<close>

fun read_events :: "InputDevice \<Rightarrow> InputEvent list \<Rightarrow> monitor \<Rightarrow> monitor" where
  "read_events dev [] st = st"
| "read_events dev (event # events) st =
     (if ev_type event = EV_KEY
      then (if ev_value event = key_down
            then (case key_pressed dev st of
                    (st', True) \<Rightarrow> st'
                  | (st', False) \<Rightarrow> read_events dev events st')
            else read_events dev events st)
      else read_events dev events st)"

text \<open>
  The loop over the ready descriptors, lines 156-198. \<^verbatim>\<open>dev.read()\<close> raises before it
  yields an event, so an exception means that no event was processed.
\<close>

fun poll_ready :: "faults \<Rightarrow> (nat \<times> (exn + InputEvent list)) list \<Rightarrow> monitor \<Rightarrow> monitor" where
  "poll_ready os [] st = st"
| "poll_ready os ((fd', r) # rlist) st =
     (case map_of (open_devices st) fd' of
        None \<Rightarrow> poll_ready os rlist st
      | Some dev \<Rightarrow>
          (case r of
             Inr events \<Rightarrow>
               (let st' = read_events dev events st
                in if \<not> is_running st' then st' else poll_ready os rlist st')
           | Inl (BlockingIOError m) \<Rightarrow> poll_ready os rlist st
           | Inl (OSError m) \<Rightarrow>
               (let st1 = say (Print (OSError_reading (name dev) (path dev) (OSError m))) st
                in case map_of (open_devices st1) fd' of
                     None \<Rightarrow> st1
                   | Some d \<Rightarrow>
                       st1\<lparr>open_devices := AList.delete fd' (open_devices st1),
                           env := snd (try_close os d (env st1))\<rparr>)
           | Inl e \<Rightarrow>
               poll_ready os rlist
                 (say (Print (Error_processing_event (name dev) (path dev) e)) st)))"

text \<open>
  Lines 111-123: the devices of \<^verbatim>\<open>open_devices\<close> whose descriptor the scanner did not
  return are closed, then the scanner's devices are added.
\<close>

definition refresh :: "faults \<Rightarrow> (nat \<times> InputDevice) list \<Rightarrow> monitor \<Rightarrow> monitor" where
  "refresh os newly_available_devices st =
     (let fds_to_close = filter (\<lambda>fd'. map_of newly_available_devices fd' = None)
                           (map fst (open_devices st));
          st2 = close_old os fds_to_close st
      in st2\<lparr>open_devices := add_new newly_available_devices (open_devices st2)\<rparr>)"

text \<open>
  The two \<^verbatim>\<open>except\<close> clauses of \<^verbatim>\<open>select.select\<close>, lines 138-154: a
  \<^verbatim>\<open>ValueError\<close> is printed, every open device is closed and the dictionary cleared;
  any other exception is printed.
\<close>

definition select_failed :: "faults \<Rightarrow> exn \<Rightarrow> monitor \<Rightarrow> monitor" where
  "select_failed os e st =
     (case e of
        ValueError m \<Rightarrow>
          (let st1 = say (Print (Select_error_ValueError e)) st;
               w2 = snd (close_each os (map snd (open_devices st1)) (env st1))
           in say (Sleep 100) (st1\<lparr>open_devices := [], env := w2\<rparr>))
      | _ \<Rightarrow> say (Sleep 100) (say (Print (Select_unexpected_error e)) st))"

text \<open>Lines 126-202: the rest of a pass, after \<^verbatim>\<open>open_devices\<close> was refreshed.\<close>

definition wait_and_poll :: "faults \<Rightarrow> cycle \<Rightarrow> monitor \<Rightarrow> monitor" where
  "wait_and_poll os cyc st =
     (if open_devices st = [] then say (Sleep 500) st
      else
        (let read_fds = map fst (open_devices st);
             st1 = say (Select read_fds) st
         in case select_result cyc of
              Inl e \<Rightarrow> select_failed os e st1
            | Inr rlist \<Rightarrow>
                (let st2 = poll_ready os rlist st1
                 in if is_running st2 then say (Sleep 10) st2 else st2)))"

text \<open>
  One pass of the \<^verbatim>\<open>while\<close> loop after its two tests, lines 107-202. The first
  component is the exception that leaves the loop, if any: only the scanner's, the one
  call outside every \<^verbatim>\<open>try\<close>.
\<close>

definition loop_body :: "faults \<Rightarrow> cycle \<Rightarrow> monitor \<Rightarrow> exn option \<times> monitor" where
  "loop_body os cyc st =
     (case discover_available_keyboards os cyc (player_keyboards st) (env st) of
        (Inl e, w1) \<Rightarrow> (Some e, st\<lparr>env := w1\<rparr>)
      | (Inr newly_available_devices, w1) \<Rightarrow>
          (None, wait_and_poll os cyc (refresh os newly_available_devices (st\<lparr>env := w1\<rparr>))))"

text \<open>
  How a run of the thread ends: the function returned, an exception left it, or the
  environment's answers ran out while the loop was still running (the loop has no bound
  of its own: without key presses it runs forever).
\<close>

datatype outcome = Exited monitor | Raised exn monitor | Pending monitor

fun final :: "outcome \<Rightarrow> monitor" where
  "final (Exited st) = st"
| "final (Raised e st) = st"
| "final (Pending st) = st"

text \<open>The \<^verbatim>\<open>while is_running\<close> loop, lines 100-202, one \<open>cycle\<close> per pass.\<close>

fun monitor_loop :: "faults \<Rightarrow> cycle list \<Rightarrow> monitor \<Rightarrow> outcome" where
  "monitor_loop os [] st =
     (if \<not> is_running st then Exited st
      else if current_player_registering st > 2 then Exited st
      else Pending st)"
| "monitor_loop os (cyc # cycles) st =
     (if \<not> is_running st then Exited st
      else if current_player_registering st > 2 then Exited st
      else (case loop_body os cyc st of
              (Some e, st') \<Rightarrow> Raised e st'
            | (None, st') \<Rightarrow> monitor_loop os cycles st'))"

text \<open>The statements after the loop, lines 204-215.\<close>

definition final_cleanup :: "faults \<Rightarrow> monitor \<Rightarrow> exn option \<times> world" where
  "final_cleanup os st =
     (case close_each os (map snd (open_devices st)) (log (Print Thread_finished) (env st)) of
        (Some e, w1) \<Rightarrow> (Some e, w1)
      | (None, w1) \<Rightarrow> close_each os (map snd (player_keyboards st)) w1)"

text \<open>\<^verbatim>\<open>monitor_keyboards_thread\<close>, lines 89-215.\<close>

definition monitor_keyboards_thread ::
  "faults \<Rightarrow> cycle list \<Rightarrow> int \<Rightarrow> (int \<times> InputDevice) list \<Rightarrow> bool \<Rightarrow> world \<Rightarrow> outcome" where
  "monitor_keyboards_thread os cycles current_player_registering0 player_keyboards0 is_running0 w =
     (case monitor_loop os cycles
             \<lparr>current_player_registering = current_player_registering0,
              player_keyboards = player_keyboards0,
              is_running = is_running0,
              open_devices = [],
              env = log (Print Starting_thread) w\<rparr> of
        Exited st \<Rightarrow>
          (case final_cleanup os st of
             (Some e, w1) \<Rightarrow> Raised e (st\<lparr>env := w1\<rparr>)
           | (None, w1) \<Rightarrow> Exited (st\<lparr>env := w1\<rparr>))
      | Raised e st \<Rightarrow> Raised e st
      | Pending st \<Rightarrow> Pending st)"

section \<open>The caller\<close>

text \<open>
  The module globals of \<^verbatim>\<open>main.py\<close> (lines 8-12; \<^verbatim>\<open>tt.py\<close> has the same three under the
  names \<^verbatim>\<open>player_keyboards\<close>, \<^verbatim>\<open>current_player_registering\<close>, \<^verbatim>\<open>poc_running\<close>).
\<close>

record globals =
  g_player_keyboards :: "(int \<times> InputDevice) list"
  g_current_player_registering :: int
  g_is_running :: bool

definition initial_globals :: globals where
  "initial_globals =
     \<lparr>g_player_keyboards = [], g_current_player_registering = 1, g_is_running = True\<rparr>"

text \<open>
  \<^verbatim>\<open>start()\<close>, lines 71-76 of \<^verbatim>\<open>main.py\<close>: the thread is started with the values of the
  three globals as arguments. A Python \<^verbatim>\<open>int\<close> and a \<^verbatim>\<open>bool\<close> are immutable, so the
  thread's assignments to its parameters \<^verbatim>\<open>current_player_registering\<close> and
  \<^verbatim>\<open>is_running\<close> rebind its own local names; the dictionary is one object, so what the
  thread stores in it is what the global holds. The result is the globals after the run of
  the thread, and how the thread ended.
\<close>

definition start :: "faults \<Rightarrow> cycle list \<Rightarrow> globals \<Rightarrow> world \<Rightarrow> globals \<times> outcome" where
  "start os cycles g w =
     (let out = monitor_keyboards_thread os cycles
                  (g_current_player_registering g) (g_player_keyboards g) (g_is_running g) w
      in (g\<lparr>g_player_keyboards := player_keyboards (final out)\<rparr>, out))"

text \<open>
  The test of \<^verbatim>\<open>check_game_status_and_exit\<close> (lines 79-86 of \<^verbatim>\<open>main.py\<close>;
  \<^verbatim>\<open>check_poc_status_and_exit\<close> in \<^verbatim>\<open>tt.py\<close>): the windows are closed when the global
  flag is false.
\<close>

definition check_game_status_and_exit :: "globals \<Rightarrow> bool" where
  "check_game_status_and_exit g = (\<not> g_is_running g)"

section \<open>Predicates of the specification\<close>

text \<open>
  The ledger with the counter \<open>n\<close> of the next slot: the counter is between 1 and 3, the
  slots filled are 1 up to \<open>n - 1\<close> in this order, and no two slots hold devices of the
  same path.
\<close>

definition ledger_inv :: "int \<Rightarrow> (int \<times> InputDevice) list \<Rightarrow> bool" where
  "ledger_inv n ledger \<longleftrightarrow>
     1 \<le> n \<and> n \<le> 3 \<and> map fst ledger = [1 .. n - 1] \<and>
     distinct (map (\<lambda>(slot, dev). path dev) ledger)"

text \<open>
  A step from \<open>st\<close> to \<open>st'\<close> keeps the ledger well-formed and only appends to it.
\<close>

definition grows :: "monitor \<Rightarrow> monitor \<Rightarrow> bool" where
  "grows st st' \<longleftrightarrow>
     (ledger_inv (current_player_registering st) (player_keyboards st) \<longrightarrow>
        ledger_inv (current_player_registering st') (player_keyboards st') \<and>
        prefix (player_keyboards st) (player_keyboards st'))"

text \<open>
  The effect that marks the assignment of the final slot, slot 2 (line 173), and the
  effects of the scanner: its call, and every device it opens.
\<close>

fun completes :: "effect \<Rightarrow> bool" where
  "completes (Print (Assigned_player slot n p)) = (slot = 2)"
| "completes _ = False"

fun scans :: "effect \<Rightarrow> bool" where
  "scans Scan = True"
| "scans (Opened h) = True"
| "scans _ = False"

text \<open>
  No call of the scanner and no opened device after an assignment of the final slot.
\<close>

fun quiet_after_completion :: "effect list \<Rightarrow> bool" where
  "quiet_after_completion [] = True"
| "quiet_after_completion (e # es) =
     ((completes e \<longrightarrow> \<not> list_ex scans es) \<and> quiet_after_completion es)"

text \<open>
  The effects after the first \<open>k\<close>; \<open>registering\<close>: the final slot was not assigned
  since then; \<open>orderly\<close>: nothing was scanned after the final slot was assigned, and
  the thread's flag is false once it was.
\<close>

definition since :: "nat \<Rightarrow> world \<Rightarrow> effect list" where
  "since k w = drop k (trace w)"

definition registering :: "nat \<Rightarrow> world \<Rightarrow> bool" where
  "registering k w \<longleftrightarrow> k \<le> length (trace w) \<and> \<not> list_ex completes (since k w)"

definition orderly :: "nat \<Rightarrow> monitor \<Rightarrow> bool" where
  "orderly k st \<longleftrightarrow>
     k \<le> length (trace (env st)) \<and> quiet_after_completion (since k (env st)) \<and>
     (list_ex completes (since k (env st)) \<longrightarrow> \<not> is_running st)"

text \<open>
  From \<open>w\<close> to \<open>w'\<close> effects were only appended, none of them the final assignment
  (\<open>calm\<close>), nor a scan (\<open>silent\<close>).
\<close>

definition calm :: "world \<Rightarrow> world \<Rightarrow> bool" where
  "calm w w' \<longleftrightarrow> (\<exists>es. trace w' = trace w @ es \<and> \<not> list_ex completes es)"

definition silent :: "world \<Rightarrow> world \<Rightarrow> bool" where
  "silent w w' \<longleftrightarrow>
     (\<exists>es. trace w' = trace w @ es \<and> \<not> list_ex completes es \<and> \<not> list_ex scans es)"




section \<open>Concrete environments\<close>

text \<open>
  Concrete environments, to run the model on: library calls that never fail and
  \<^verbatim>\<open>close()\<close> that always fails; an empty trace; two keyboards, a mouse (buttons
  \<open>BTN_LEFT\<close>, \<open>BTN_RIGHT\<close> only) and a device whose capabilities cannot be read any
  more; key events with value \<open>v\<close>. In \<open>cycle1\<close> keyboard A is pressed while keyboard B
  is released and repeats, in \<open>cycle2\<close> keyboard B is pressed; in \<open>cycle_denied\<close> the
  only device cannot be opened, in \<open>cycle_vanished\<close> it opens and cannot be classified.
\<close>

definition no_faults :: faults where
  "no_faults = \<lparr>close_raises = (\<lambda>h. None), getfl_raises = (\<lambda>h. None), setfl_raises = (\<lambda>h. None)\<rparr>"

definition close_always_fails :: faults where
  "close_always_fails =
     \<lparr>close_raises = (\<lambda>h. Some (OSError ''Bad file descriptor'')),
      getfl_raises = (\<lambda>h. None), setfl_raises = (\<lambda>h. None)\<rparr>"

definition world0 :: world where
  "world0 = \<lparr>trace = [], fl = (\<lambda>h. 0), next_handle = 0\<rparr>"

definition keyboard :: "nat \<Rightarrow> string \<Rightarrow> InputDevice" where
  "keyboard n nm = \<lparr>handle = 0, path = [], fd = n, name = nm,
                    capabilities = Inr [EV_KEY \<mapsto> [KEY_A, KEY_Z]]\<rparr>"

definition mouse :: "nat \<Rightarrow> InputDevice" where
  "mouse n = \<lparr>handle = 0, path = [], fd = n, name = ''Mouse'',
              capabilities = Inr [EV_KEY \<mapsto> [272, 273]]\<rparr>"

definition vanished :: "nat \<Rightarrow> InputDevice" where
  "vanished n = \<lparr>handle = 0, path = [], fd = n, name = ''Gone'',
                 capabilities = Inl (OSError ''No such device'')\<rparr>"

definition key :: "int \<Rightarrow> InputEvent" where
  "key v = \<lparr>ev_type = EV_KEY, ev_code = KEY_A, ev_value = v\<rparr>"

definition cycle1 :: cycle where
  "cycle1 = \<lparr>by_id_exists = True,
     by_id_entries = [(''/dev/input/event3'', Inr (keyboard 5 ''A''))],
     list_devices = [(''/dev/input/event3'', Inr (keyboard 9 ''A'')),
                     (''/dev/input/event4'', Inr (keyboard 6 ''B'')),
                     (''/dev/input/event5'', Inr (mouse 7))],
     select_result = Inr [(6, Inr [key 0, key 2]), (5, Inr [key 1, key 0])]\<rparr>"

definition cycle2 :: cycle where
  "cycle2 = \<lparr>by_id_exists = True,
     by_id_entries = [(''/dev/input/event3'', Inr (keyboard 7 ''A''))],
     list_devices = [(''/dev/input/event3'', Inr (keyboard 9 ''A'')),
                     (''/dev/input/event4'', Inr (keyboard 8 ''B'')),
                     (''/dev/input/event5'', Inr (mouse 7))],
     select_result = Inr [(8, Inr [key 1, key 1])]\<rparr>"

definition cycle_denied :: cycle where
  "cycle_denied = \<lparr>by_id_exists = True,
     by_id_entries = [(''/dev/input/event3'', Inl (OSError ''Permission denied''))],
     list_devices = [],
     select_result = Inr []\<rparr>"

definition cycle_vanished :: cycle where
  "cycle_vanished = \<lparr>by_id_exists = True,
     by_id_entries = [(''/dev/input/event3'', Inr (vanished 5))],
     list_devices = [],
     select_result = Inr []\<rparr>"

text \<open>
  Two states of the thread: before any registration, with keyboard A open; and with
  keyboard A in slot 1 and keyboard B open.
\<close>

definition idle :: monitor where
  "idle = \<lparr>current_player_registering = 1, player_keyboards = [], is_running = True,
           open_devices = [(5, (keyboard 5 ''A'')\<lparr>path := ''/dev/input/event3''\<rparr>)],
           env = world0\<rparr>"

definition leftover :: monitor where
  "leftover = \<lparr>current_player_registering = 2,
      player_keyboards = [(1, (keyboard 5 ''A'')\<lparr>handle := 1, path := ''/dev/input/event3''\<rparr>)],
      is_running = True,
      open_devices = [(6, (keyboard 6 ''B'')\<lparr>handle := 2, path := ''/dev/input/event4''\<rparr>)],
      env = world0\<rparr>"

section \<open>Proofs\<close>

text \<open>
  C8. \<^verbatim>\<open>is_keyboard(device)\<close> answers true exactly when the device's capabilities contain
  the event type \<open>EV_KEY\<close> and its list of key codes contains at least one of \<open>KEY_A\<close>,
  \<open>KEY_Z\<close>, \<open>KEY_SPACE\<close>, \<open>KEY_ENTER\<close>, \<open>KEY_1\<close>. The function reads the device only: it
  takes and returns no state.
\<close>

theorem is_keyboard_iff:
  "is_keyboard device = Inr True \<longleftrightarrow>
     (\<exists>caps codes. capabilities device = Inr caps \<and> caps EV_KEY = Some codes \<and>
        (\<exists>k \<in> {KEY_A, KEY_Z, KEY_SPACE, KEY_ENTER, KEY_1}. k \<in> set codes))"
  by (auto simp: is_keyboard_def list_ex_iff split: sum.splits option.splits)

theorem is_keyboard_iff_witness:
  "is_keyboard \<lparr>handle = 0, path = ''/dev/input/event3'', fd = 5, name = ''kbd'',
                 capabilities = Inr [EV_KEY \<mapsto> [KEY_A, 31]]\<rparr> = Inr True"
  using is_keyboard_iff
    [of "\<lparr>handle = 0, path = ''/dev/input/event3'', fd = 5, name = ''kbd'',
          capabilities = Inr [EV_KEY \<mapsto> [KEY_A, 31]]\<rparr>"]
  by simp

subsection \<open>Traces\<close>

lemma say_fields [simp]:
  "current_player_registering (say e st) = current_player_registering st"
  "player_keyboards (say e st) = player_keyboards st"
  "is_running (say e st) = is_running st"
  "open_devices (say e st) = open_devices st"
  "trace (env (say e st)) = trace (env st) @ [e]"
  by (simp_all add: say_def log_def)

lemma trace_log [simp]: "trace (log e w) = trace w @ [e]"
  by (simp add: log_def)

lemma trace_close [simp]: "trace (snd (close os dev w)) = trace w @ [Closed (handle dev)]"
  by (simp add: close_def)

lemma try_close_eq: "try_close os dev w = (None, log (Closed (handle dev)) w)"
  by (simp add: try_close_def close_def split: option.splits)

lemma close_each_eq:
  "close_each os devs w = (None, w\<lparr>trace := trace w @ map (\<lambda>dev. Closed (handle dev)) devs\<rparr>)"
  by (induction devs arbitrary: w) (simp_all add: try_close_eq log_def)

text \<open>
  C10. The statements after the loop call \<^verbatim>\<open>close()\<close> on every device of
  \<^verbatim>\<open>open_devices\<close> and then on every device of \<^verbatim>\<open>player_keyboards\<close>, each once and in
  this order, whichever of these calls raise; and no exception leaves them.
\<close>

theorem final_cleanup_closes_all:
  "fst (final_cleanup os st) = None \<and>
   trace (snd (final_cleanup os st)) =
     trace (env st) @ [Print Thread_finished]
       @ map (\<lambda>dev. Closed (handle dev)) (map snd (open_devices st))
       @ map (\<lambda>dev. Closed (handle dev)) (map snd (player_keyboards st))"
  by (simp add: final_cleanup_def close_each_eq)

text \<open>
  C5. Events whose value is 0 (released) or 2 (repeated) leave the thread's state as it
  was: ledger, slot counter, running flag and everything else. Only a key event with
  value 1 changes it.
\<close>

theorem only_key_down_events_register:
  "((\<forall>event \<in> set events. ev_value event = 0 \<or> ev_value event = 2)
      \<longrightarrow> read_events dev events st = st) \<and>
   (read_events dev events st \<noteq> st
      \<longrightarrow> (\<exists>event \<in> set events. ev_type event = EV_KEY \<and> ev_value event = 1))"
proof -
  have quiet: "read_events dev events st = st"
    if "\<forall>event \<in> set events. ev_type event \<noteq> EV_KEY \<or> ev_value event \<noteq> 1"
    using that by (induction events) (simp_all add: key_down_def)
  have "read_events dev events st = st"
    if "\<forall>event \<in> set events. ev_value event = 0 \<or> ev_value event = 2"
    using that by (intro quiet) auto
  moreover have "\<exists>event \<in> set events. ev_type event = EV_KEY \<and> ev_value event = 1"
    if "read_events dev events st \<noteq> st"
    using that quiet by blast
  ultimately show ?thesis by blast
qed

text \<open>
  C4, as the code has it. When the thread returns, its last effects are the line
  \<^verbatim>\<open>Keyboard monitoring thread finished.\<close>, then a \<^verbatim>\<open>close()\<close> of every device left in
  \<^verbatim>\<open>open_devices\<close>, then a \<^verbatim>\<open>close()\<close> of every device of the ledger
  \<^verbatim>\<open>player_keyboards\<close>.
\<close>

theorem thread_exit_closes:
  assumes "monitor_keyboards_thread os cycles n pk run w = Exited fin"
  shows "\<exists>before. trace (env fin) =
           before @ [Print Thread_finished]
             @ map (\<lambda>dev. Closed (handle dev)) (map snd (open_devices fin))
             @ map (\<lambda>dev. Closed (handle dev)) (map snd (player_keyboards fin))"
  using assms
  by (auto simp: monitor_keyboards_thread_def final_cleanup_def close_each_eq
           split: outcome.splits prod.splits option.splits)

subsection \<open>The ledger\<close>


lemma grows_refl [simp]: "grows st st"
  by (simp add: grows_def)






lemma close_old_ledger [simp]:
  "current_player_registering (close_old os fds st) = current_player_registering st"
  "player_keyboards (close_old os fds st) = player_keyboards st"
  "is_running (close_old os fds st) = is_running st"
  by (induction fds arbitrary: st; simp split: option.splits prod.splits)+

lemma refresh_ledger [simp]:
  "current_player_registering (refresh os newly st) = current_player_registering st"
  "player_keyboards (refresh os newly st) = player_keyboards st"
  "is_running (refresh os newly st) = is_running st"
  by (simp_all add: refresh_def Let_def)

lemma select_failed_ledger [simp]:
  "current_player_registering (select_failed os e st) = current_player_registering st"
  "player_keyboards (select_failed os e st) = player_keyboards st"
  "is_running (select_failed os e st) = is_running st"
  by (simp_all add: select_failed_def Let_def split: exn.splits)




subsection \<open>Scans and the final assignment\<close>

lemma quiet_append:
  "quiet_after_completion (xs @ ys) \<longleftrightarrow>
     quiet_after_completion xs \<and> quiet_after_completion ys \<and>
     (list_ex completes xs \<longrightarrow> \<not> list_ex scans ys)"
  by (induction xs) auto

lemma quiet_no_completion: "\<not> list_ex completes es \<Longrightarrow> quiet_after_completion es"
  by (induction es) auto

lemma calm_refl [simp]: "calm w w"
  by (simp add: calm_def)

lemma calm_trans: "calm a b \<Longrightarrow> calm b c \<Longrightarrow> calm a c"
  by (auto simp: calm_def)

lemma silent_refl [simp]: "silent w w"
  by (simp add: silent_def)

lemma silent_trans: "silent a b \<Longrightarrow> silent b c \<Longrightarrow> silent a c"
  by (auto simp: silent_def)

lemma silent_calm: "silent a b \<Longrightarrow> calm a b"
  by (auto simp: silent_def calm_def)

lemma calm_log: "\<not> completes e \<Longrightarrow> calm w (log e w)"
  by (simp add: calm_def log_def)

lemma silent_log: "\<not> completes e \<Longrightarrow> \<not> scans e \<Longrightarrow> silent w (log e w)"
  by (simp add: silent_def log_def)

lemma registering_calm: "registering k w \<Longrightarrow> calm w w' \<Longrightarrow> registering k w'"
  by (auto simp: registering_def calm_def since_def)

lemma registering_orderly:
  "registering k (env st) \<Longrightarrow> orderly k st"
  by (simp add: registering_def orderly_def quiet_no_completion)

lemma orderly_running: "orderly k st \<Longrightarrow> is_running st \<Longrightarrow> registering k (env st)"
  by (auto simp: registering_def orderly_def)

lemma orderly_silent:
  "orderly k st \<Longrightarrow> silent (env st) (env st') \<Longrightarrow> is_running st' = is_running st
     \<Longrightarrow> orderly k st'"
  by (auto simp: orderly_def silent_def since_def quiet_append quiet_no_completion)

lemma calm_open_device: "calm w (snd (open_device p r w))"
  by (cases r) (auto simp: open_device_def calm_def log_def)

lemma silent_close: "silent w (snd (close os dev w))"
  by (simp add: close_def silent_log)

lemma silent_try_close: "silent w (snd (try_close os dev w))"
  by (simp add: try_close_eq silent_log)

lemma silent_close_each: "silent w (snd (close_each os devs w))"
  by (simp add: close_each_eq silent_def list_ex_iff)

lemma calm_getfl: "calm w (snd (fcntl_getfl os dev w))"
  by (simp add: fcntl_getfl_def split: option.splits)

lemma calm_setfl: "calm w (snd (fcntl_setfl os dev flags w))"
  by (auto simp: fcntl_setfl_def calm_def log_def split: option.splits)

lemma calm_probe: "calm w (snd (probe os p r tbl w))"
proof (cases r)
  case (Inl e)
  then show ?thesis by (simp add: probe_def open_device_def)
next
  case (Inr d)
  have c1: "calm w (snd (open_device p (Inr d) w))" by (rule calm_open_device)
  have c2: "calm (snd (open_device p (Inr d) w)) (snd (close os dev (snd (open_device p (Inr d) w))))" for dev
    by (rule silent_calm [OF silent_close])
  show ?thesis using Inr c1 calm_trans [OF c1 c2]
    by (auto simp: probe_def split: prod.splits sum.splits bool.splits)
qed

lemma calm_scan_by_id: "calm w (snd (scan_by_id os entries tbl w))"
proof (induction entries arbitrary: tbl w)
  case Nil
  show ?case by simp
next
  case (Cons a entries)
  obtain p r where a: "a = (p, r)" by (cases a)
  obtain tbl' w' where pr: "probe os p r tbl w = (tbl', w')" by (cases "probe os p r tbl w")
  have "calm w w'" using calm_probe [of w os p r tbl] pr by simp
  then have "calm w (snd (scan_by_id os entries tbl' w'))"
    using Cons.IH [of w' tbl'] by (rule calm_trans)
  then show ?case using a pr Cons.IH [of w tbl] by simp
qed

lemma calm_scan_event_nodes: "calm w (snd (scan_event_nodes os entries tbl w))"
proof (induction entries arbitrary: tbl w)
  case Nil
  show ?case by simp
next
  case (Cons a entries)
  obtain p r where a: "a = (p, r)" by (cases a)
  obtain tbl' w' where pr: "probe os p r tbl w = (tbl', w')" by (cases "probe os p r tbl w")
  have "calm w w'" using calm_probe [of w os p r tbl] pr by simp
  then have "calm w (snd (scan_event_nodes os entries tbl' w'))"
    using Cons.IH [of w' tbl'] by (rule calm_trans)
  then show ?case using a pr Cons.IH [of w tbl] by simp
qed

lemma calm_by_id_devices: "calm w (snd (by_id_devices os cyc w))"
proof -
  obtain t1 w1 where s1:
    "(if by_id_exists cyc then scan_by_id os (by_id_entries cyc) [] w else ([], w)) = (t1, w1)"
    by (cases "if by_id_exists cyc then scan_by_id os (by_id_entries cyc) [] w else ([], w)")
  have "calm w w1"
    using s1 calm_scan_by_id [of w os "by_id_entries cyc" "[]"] by (auto split: if_splits)
  then have "calm w (snd (scan_event_nodes os (list_devices cyc) t1 w1))"
    using calm_scan_event_nodes by (rule calm_trans)
  then show ?thesis using s1 by (simp add: by_id_devices_def)
qed

lemma calm_configure: "calm w (snd (configure os ap items avail w))"
proof (induction items arbitrary: avail w)
  case Nil
  show ?case by simp
next
  case (Cons a items)
  obtain p dev where a: "a = (p, dev)" by (cases a)
  show ?case
  proof (cases "p \<in> set ap")
    case True
    have c: "calm w (snd (close os dev w))" by (rule silent_calm [OF silent_close])
    show ?thesis
      using a True c calm_trans [OF c Cons.IH [of "snd (close os dev w)" avail]]
      by (auto split: prod.splits option.splits)
  next
    case False
    have g: "snd (fcntl_getfl os dev w) = w"
      by (simp add: fcntl_getfl_def split: option.splits)
    have c: "calm w (snd (fcntl_setfl os dev flags w))" for flags by (rule calm_setfl)
    show ?thesis
    proof (cases "fcntl_getfl os dev w")
      case (Pair r w1)
      with g have w1: "w1 = w" by simp
      show ?thesis
      proof (cases r)
        case (Inl e)
        with a False Pair w1 show ?thesis by simp
      next
        case (Inr flag)
        obtain r2 w2 where sf: "fcntl_setfl os dev (flag OR O_NONBLOCK) w = (r2, w2)"
          by (cases "fcntl_setfl os dev (flag OR O_NONBLOCK) w")
        have c2: "calm w w2" using c [of "flag OR O_NONBLOCK"] sf by simp
        show ?thesis
          using a False Pair w1 Inr sf c2
            calm_trans [OF c2 Cons.IH [of w2 "AList.update (fd dev) dev avail"]]
          by (cases r2) auto
      qed
    qed
  qed
qed

lemma calm_discover: "calm w (snd (discover_available_keyboards os cyc pk w))"
proof -
  obtain t2 w2 where b: "by_id_devices os cyc (log Scan w) = (t2, w2)"
    by (cases "by_id_devices os cyc (log Scan w)")
  have "calm w (log Scan w)" by (simp add: calm_log)
  moreover have "calm (log Scan w) w2" using calm_by_id_devices [of "log Scan w" os cyc] b by simp
  moreover have "calm w2 (snd (configure os (map (\<lambda>(slot, dev). path dev) pk) t2 [] w2))"
    by (rule calm_configure)
  ultimately show ?thesis using b
    by (auto simp: discover_available_keyboards_def Let_def intro: calm_trans)
qed

lemma env_say [simp]: "env (say e st) = log e (env st)"
  by (simp add: say_def)

lemma calm_close_old:
  "calm (env st) (env (close_old os fds st))"
proof (induction fds arbitrary: st)
  case Nil
  show ?case by simp
next
  case (Cons fd' fds)
  let ?st1 = "case map_of (open_devices st) fd' of
          None \<Rightarrow> say (Print (Error_closing_old_device fd' (KeyError fd'))) st
        | Some dev \<Rightarrow>
            (case close os dev (env st) of
               (Some e, w1) \<Rightarrow> say (Print (Error_closing_old_device fd' e)) (st\<lparr>env := w1\<rparr>)
             | (None, w1) \<Rightarrow>
                 st\<lparr>open_devices := AList.delete fd' (open_devices st), env := w1\<rparr>)"
  have "calm (env st) (env ?st1)"
    by (auto simp: close_def calm_def log_def split: option.splits)
  then show ?case using Cons.IH [of ?st1] by (auto intro: calm_trans)
qed

lemma calm_refresh: "calm (env st) (env (refresh os newly st))"
  by (simp add: refresh_def Let_def calm_close_old)

lemma calm_select_failed: "calm (env st) (env (select_failed os e st))"
  by (cases e) (auto simp: select_failed_def Let_def close_each_eq calm_def log_def list_ex_iff)

lemma key_pressed_orderly:
  assumes "registering k (env st)"
  shows "orderly k (fst (key_pressed dev st))"
    and "snd (key_pressed dev st) \<Longrightarrow> \<not> is_running (fst (key_pressed dev st))"
    and "\<not> snd (key_pressed dev st) \<Longrightarrow> registering k (env (fst (key_pressed dev st)))"
proof -
  let ?guard = "current_player_registering st \<le> 2 \<and>
         path dev \<notin> set (map (\<lambda>(slot, d). path d) (player_keyboards st))"
  have all: "orderly k (fst (key_pressed dev st)) \<and>
      (snd (key_pressed dev st) \<longrightarrow> \<not> is_running (fst (key_pressed dev st))) \<and>
      (\<not> snd (key_pressed dev st) \<longrightarrow> registering k (env (fst (key_pressed dev st))))"
  proof (cases ?guard)
    case False
    then have "key_pressed dev st = (say (Print (Key_press_detected (name dev) (path dev))) st, False)"
      by (simp add: key_pressed_def Let_def)
    then show ?thesis using assms
      by (simp add: registering_def orderly_def since_def log_def quiet_no_completion)
  next
    case True
    show ?thesis
    proof (cases "current_player_registering st = 2")
      case two: True
      show ?thesis using True two assms
        by (simp add: key_pressed_def Let_def registering_def orderly_def since_def log_def
              quiet_append quiet_no_completion)
    next
      case less: False
      show ?thesis using True less assms
        by (simp add: key_pressed_def Let_def registering_def orderly_def since_def log_def
              quiet_append quiet_no_completion)
    qed
  qed
  from all show "orderly k (fst (key_pressed dev st))" by simp
  from all show "snd (key_pressed dev st) \<Longrightarrow> \<not> is_running (fst (key_pressed dev st))" by simp
  from all show "\<not> snd (key_pressed dev st) \<Longrightarrow> registering k (env (fst (key_pressed dev st)))"
    by simp
qed

lemma read_events_orderly:
  "registering k (env st) \<Longrightarrow> orderly k (read_events dev events st)"
proof (induction events arbitrary: st)
  case Nil
  then show ?case by (simp add: registering_orderly)
next
  case (Cons event events)
  show ?case
  proof (cases "ev_type event = EV_KEY \<and> ev_value event = key_down")
    case False
    then show ?thesis using Cons by auto
  next
    case True
    obtain st' b where kp: "key_pressed dev st = (st', b)" by (cases "key_pressed dev st")
    show ?thesis
    proof (cases b)
      case True
      with \<open>ev_type event = EV_KEY \<and> ev_value event = key_down\<close> kp
        key_pressed_orderly(1) [OF Cons.prems, of dev]
      show ?thesis by simp
    next
      case False
      with kp key_pressed_orderly(3) [OF Cons.prems, of dev]
      have "registering k (env st')" by simp
      with \<open>ev_type event = EV_KEY \<and> ev_value event = key_down\<close> kp False Cons.IH [of st']
      show ?thesis by simp
    qed
  qed
qed

lemma registering_say:
  "registering k (env st) \<Longrightarrow> \<not> completes e \<Longrightarrow> registering k (env (say e st))"
  by (auto intro: registering_calm calm_log)

lemma poll_ready_orderly:
  "registering k (env st) \<Longrightarrow> orderly k (poll_ready os rlist st)"
proof (induction rlist arbitrary: st)
  case Nil
  then show ?case by (simp add: registering_orderly)
next
  case (Cons a rlist)
  obtain fd' r where a: "a = (fd', r)" by (cases a)
  show ?case
  proof (cases "map_of (open_devices st) fd'")
    case None
    then show ?thesis using a Cons by simp
  next
    case (Some dev)
    show ?thesis
    proof (cases r)
      case (Inr events)
      have o: "orderly k (read_events dev events st)"
        using Cons.prems by (rule read_events_orderly)
      show ?thesis
      proof (cases "is_running (read_events dev events st)")
        case False
        with a Some Inr o show ?thesis by (simp add: Let_def)
      next
        case True
        with o have "registering k (env (read_events dev events st))"
          by (rule orderly_running)
        with a Some Inr True Cons.IH [of "read_events dev events st"]
        show ?thesis by (simp add: Let_def)
      qed
    next
      case (Inl e)
      have other: "orderly k (poll_ready os rlist
                     (say (Print (Error_processing_event (name dev) (path dev) e)) st))"
        using Cons.prems by (intro Cons.IH registering_say) simp_all
      show ?thesis
      proof (cases e)
        case (BlockingIOError m)
        then show ?thesis using a Some Inl Cons by simp
      next
        case (OSError m)
        have "registering k (log (Closed h) (log (Print (OSError_reading x y z)) (env st)))"
          for h x y z
          using Cons.prems by (auto intro!: registering_calm [OF _ calm_log])
        then show ?thesis using a Some Inl OSError Cons.prems
          by (auto simp: Let_def try_close_eq intro!: registering_orderly)
      next
        case (ValueError m)
        then show ?thesis using a Some Inl other by simp
      next
        case (KeyError n)
        then show ?thesis using a Some Inl other by simp
      next
        case (OtherException m)
        then show ?thesis using a Some Inl other by simp
      qed
    qed
  qed
qed

lemma wait_and_poll_orderly:
  assumes "registering k (env st)"
  shows "orderly k (wait_and_poll os cyc st)"
proof (cases "open_devices st = []")
  case True
  then show ?thesis using assms
    by (auto simp: wait_and_poll_def intro!: registering_orderly registering_say)
next
  case False
  have r1: "registering k (env (say (Select (map fst (open_devices st))) st))"
    using assms by (rule registering_say) simp
  show ?thesis
  proof (cases "select_result cyc")
    case (Inl e)
    have "registering k (env (select_failed os e (say (Select (map fst (open_devices st))) st)))"
      using r1 calm_select_failed by (rule registering_calm)
    then show ?thesis using False Inl
      by (simp add: wait_and_poll_def Let_def registering_orderly del: env_say)
  next
    case (Inr rlist)
    let ?st2 = "poll_ready os rlist (say (Select (map fst (open_devices st))) st)"
    have o: "orderly k ?st2" using r1 by (rule poll_ready_orderly)
    show ?thesis
    proof (cases "is_running ?st2")
      case True
      with o have "registering k (env ?st2)" by (rule orderly_running)
      then have "orderly k (say (Sleep 10) ?st2)"
        by (intro registering_orderly registering_say) simp_all
      with True False Inr show ?thesis by (simp add: wait_and_poll_def Let_def)
    next
      case False
      with o \<open>open_devices st \<noteq> []\<close> Inr show ?thesis by (simp add: wait_and_poll_def Let_def)
    qed
  qed
qed

lemma loop_body_orderly:
  assumes "registering k (env st)"
  shows "orderly k (snd (loop_body os cyc st))"
proof (cases "discover_available_keyboards os cyc (player_keyboards st) (env st)")
  case (Pair r w1)
  have r1: "registering k w1"
    using assms calm_discover [of "env st" os cyc "player_keyboards st"] Pair
    by (auto intro: registering_calm)
  show ?thesis
  proof (cases r)
    case (Inl e)
    with Pair r1 show ?thesis by (simp add: loop_body_def registering_orderly)
  next
    case (Inr newly)
    have "registering k (env (refresh os newly (st\<lparr>env := w1\<rparr>)))"
      using calm_refresh [of "st\<lparr>env := w1\<rparr>" os newly] r1 by (auto intro: registering_calm)
    then have "orderly k (wait_and_poll os cyc (refresh os newly (st\<lparr>env := w1\<rparr>)))"
      by (rule wait_and_poll_orderly)
    with Pair Inr show ?thesis by (simp add: loop_body_def)
  qed
qed

lemma monitor_loop_orderly:
  "orderly k st \<Longrightarrow> orderly k (final (monitor_loop os cycles st))"
proof (induction cycles arbitrary: st)
  case Nil
  then show ?case by simp
next
  case (Cons cyc cycles)
  show ?case
  proof (cases "\<not> is_running st \<or> current_player_registering st > 2")
    case True
    with Cons.prems show ?thesis by auto
  next
    case False
    then have "registering k (env st)" using Cons.prems by (auto intro: orderly_running)
    then have o: "orderly k (snd (loop_body os cyc st))" by (rule loop_body_orderly)
    obtain r st' where lb: "loop_body os cyc st = (r, st')" by (cases "loop_body os cyc st")
    show ?thesis using False lb o Cons.IH [of st'] by (cases r) auto
  qed
qed

text \<open>
  C6. In every run of \<^verbatim>\<open>monitor_keyboards_thread\<close>, whatever the environment answers and
  however the run ends, no call of the scanner and no opened device follows the
  assignment of the final slot. Devices are opened by the scanner only, so there is no
  attempt to open one either.
\<close>

theorem no_scan_after_completion:
  "quiet_after_completion
     (drop (length (trace w))
        (trace (env (final (monitor_keyboards_thread os cycles n pk run w)))))"
proof -
  let ?k = "length (trace w)"
  let ?st0 = "\<lparr>current_player_registering = n, player_keyboards = pk, is_running = run,
               open_devices = [], env = log (Print Starting_thread) w\<rparr>"
  have "registering ?k (env ?st0)"
    by (simp add: registering_def since_def log_def)
  then have "orderly ?k ?st0" by (rule registering_orderly)
  then have o: "orderly ?k (final (monitor_loop os cycles ?st0))"
    by (rule monitor_loop_orderly)
  show ?thesis
  proof (cases "monitor_loop os cycles ?st0")
    case (Exited st)
    have s: "silent (env st) (snd (final_cleanup os st))"
      by (auto simp: final_cleanup_def close_each_eq silent_def list_ex_iff)
    obtain r w1 where fc: "final_cleanup os st = (r, w1)" by (cases "final_cleanup os st")
    have "orderly ?k (st\<lparr>env := w1\<rparr>)"
      using o Exited s fc by (auto intro: orderly_silent)
    then show ?thesis using Exited fc
      by (cases r) (simp_all add: monitor_keyboards_thread_def orderly_def since_def)
  next
    case (Raised e st)
    with o show ?thesis by (simp add: monitor_keyboards_thread_def orderly_def since_def)
  next
    case (Pending st)
    with o show ?thesis by (simp add: monitor_keyboards_thread_def orderly_def since_def)
  qed
qed

subsection \<open>The scanner\<close>
















subsection \<open>Runs on concrete environments\<close>

lemmas concrete_defs = no_faults_def close_always_fails_def world0_def keyboard_def mouse_def
  vanished_def key_def cycle1_def cycle2_def cycle_denied_def cycle_vanished_def

lemmas model_defs = start_def monitor_keyboards_thread_def loop_body_def wait_and_poll_def
  refresh_def select_failed_def discover_available_keyboards_def by_id_devices_def probe_def
  open_device_def close_def fcntl_getfl_def fcntl_setfl_def is_keyboard_def key_pressed_def
  final_cleanup_def try_close_def say_def log_def initial_globals_def
  check_game_status_and_exit_def
  EV_KEY_def KEY_A_def KEY_Z_def KEY_1_def KEY_ENTER_def KEY_SPACE_def key_down_def
  O_NONBLOCK_def Let_def

text \<open>
  C1. The running flag is not one shared cell. \<^verbatim>\<open>start\<close> passes the value of the global
  \<^verbatim>\<open>is_running\<close> to the thread. Two keyboards are pressed one after the other: the thread
  fills the final slot and ends with its own flag false and its counter at 3, while the
  global flag is still true and the test of \<^verbatim>\<open>check_game_status_and_exit\<close> fails.
\<close>

theorem running_flag_is_copied:
  "is_running (final (snd (start no_faults [cycle1, cycle2] initial_globals world0))) = False \<and>
   current_player_registering
     (final (snd (start no_faults [cycle1, cycle2] initial_globals world0))) = 3 \<and>
   g_is_running (fst (start no_faults [cycle1, cycle2] initial_globals world0)) = True \<and>
   check_game_status_and_exit (fst (start no_faults [cycle1, cycle2] initial_globals world0))
     = False"
  by (simp add: concrete_defs model_defs)

text \<open>
  In general no run of the thread changes the global flag.
\<close>

lemma start_keeps_flag: "g_is_running (fst (start os cycles g w)) = g_is_running g"
  by (simp add: start_def Let_def)





text \<open>
  C3. A device that opens and whose capabilities cannot be read: the scanner opens handle
  0, returns an empty mapping, and has not closed the handle.
\<close>

theorem scanner_leaks_on_classification_error:
  "fst (discover_available_keyboards no_faults cycle_vanished [] world0) = Inr [] \<and>
   trace (snd (discover_available_keyboards no_faults cycle_vanished [] world0))
     = [Scan, Opened 0]"
  by (simp add: concrete_defs model_defs)

text \<open>
  C4, as stated, fails: the devices of the ledger do not stay open. After two
  registrations the ledger holds the handles 0 and 4, and the thread's last effects close
  handle 4 (left in \<^verbatim>\<open>open_devices\<close>) and then the ledger's handles 0 and 4.
\<close>

theorem ledger_devices_closed_at_exit:
  "map (\<lambda>(slot, dev). handle dev)
     (player_keyboards (final (monitor_keyboards_thread no_faults [cycle1, cycle2] 1 [] True world0)))
     = [0, 4] \<and>
   drop 27 (trace (env (final (monitor_keyboards_thread no_faults [cycle1, cycle2] 1 [] True world0))))
     = [Print Thread_finished, Closed 4, Closed 0, Closed 4]"
  by (simp add: concrete_defs model_defs)

theorem thread_exit_closes_witness:
  "monitor_keyboards_thread no_faults [cycle1, cycle2] 1 [] True world0 =
     Exited (final (monitor_keyboards_thread no_faults [cycle1, cycle2] 1 [] True world0)) \<and>
   (\<exists>before.
      trace (env (final (monitor_keyboards_thread no_faults [cycle1, cycle2] 1 [] True world0))) =
        before @ [Print Thread_finished]
          @ map (\<lambda>dev. Closed (handle dev))
              (map snd (open_devices
                 (final (monitor_keyboards_thread no_faults [cycle1, cycle2] 1 [] True world0))))
          @ map (\<lambda>dev. Closed (handle dev))
              (map snd (player_keyboards
                 (final (monitor_keyboards_thread no_faults [cycle1, cycle2] 1 [] True world0)))))"
proof -
  have h: "monitor_keyboards_thread no_faults [cycle1, cycle2] 1 [] True world0 =
     Exited (final (monitor_keyboards_thread no_faults [cycle1, cycle2] 1 [] True world0))"
    by (simp add: concrete_defs model_defs)
  from h thread_exit_closes [OF h] show ?thesis by blast
qed

theorem only_key_down_events_register_witness:
  "ev_value (key 0) = 0 \<and> ev_value (key 2) = 2 \<and>
   read_events (keyboard 5 ''A'') [key 0, key 2] idle = idle \<and>
   read_events (keyboard 5 ''A'') [key 0, key 1] idle \<noteq> idle"
proof -
  have v: "ev_value (key 0) = 0" "ev_value (key 2) = 2"
    by (simp_all add: key_def)
  then have h: "\<forall>event \<in> set [key 0, key 2]. ev_value event = 0 \<or> ev_value event = 2"
    by simp
  have d: "read_events (keyboard 5 ''A'') [key 0, key 1] idle \<noteq> idle"
    by (simp add: concrete_defs model_defs idle_def)
  from v h d only_key_down_events_register [of "[key 0, key 2]" "keyboard 5 ''A''" idle]
  show ?thesis by blast
qed

theorem no_scan_after_completion_witness:
  "list_ex completes
     (drop (length (trace world0))
        (trace (env (final (monitor_keyboards_thread no_faults [cycle1, cycle2] 1 [] True world0)))))
   \<and> list_ex scans
     (drop (length (trace world0))
        (trace (env (final (monitor_keyboards_thread no_faults [cycle1, cycle2] 1 [] True world0)))))
   \<and> quiet_after_completion
     (drop (length (trace world0))
        (trace (env (final (monitor_keyboards_thread no_faults [cycle1, cycle2] 1 [] True world0)))))"
proof -
  have "trace (env (final (monitor_keyboards_thread no_faults [cycle1, cycle2] 1 [] True world0)))
     = [Print Starting_thread, Scan, Opened 0, Opened 1, Opened 2, Closed 2,
   SetFl 0 2048, SetFl 1 2048, Select [5, 6],
   Print (Key_press_detected ''A'' ''/dev/input/event3''),
   Print (Assigned_player 1 ''A'' ''/dev/input/event3''), After 2, Sleep 10,
   Scan, Opened 3, Opened 4, Opened 5, Closed 5, Closed 3, SetFl 4 2048,
   Closed 0, Closed 1, Select [8],
   Print (Key_press_detected ''B'' ''/dev/input/event4''),
   Print (Assigned_player 2 ''B'' ''/dev/input/event4''), After 3,
   Print Both_players_registered, Print Thread_finished, Closed 4, Closed 0,
   Closed 4]"
    by (simp add: concrete_defs model_defs)
  then have "list_ex completes
     (drop (length (trace world0))
        (trace (env (final (monitor_keyboards_thread no_faults [cycle1, cycle2] 1 [] True world0)))))
   \<and> list_ex scans
     (drop (length (trace world0))
        (trace (env (final (monitor_keyboards_thread no_faults [cycle1, cycle2] 1 [] True world0)))))"
    by (simp add: world0_def)
  with no_scan_after_completion [of world0 no_faults "[cycle1, cycle2]" 1 "[]" True]
  show ?thesis by blast
qed





theorem final_cleanup_closes_all_witness:
  "fst (final_cleanup close_always_fails leftover) = None \<and>
   trace (snd (final_cleanup close_always_fails leftover)) =
     [Print Thread_finished, Closed 2, Closed 1]"
  using final_cleanup_closes_all [of close_always_fails leftover]
  by (simp add: leftover_def world0_def keyboard_def)

end
